theory Spec2Isabelle
  imports Main
begin

section \<open>Data model of the thread screen\<close>

text \<open>
  The thread screen's model (\<^verbatim>\<open>model(props$, actions, asyncStorageSource, ssbSource)\<close>)
  turns properties, actions and data-source emissions into reducers \<^verbatim>\<open>State => State\<close>.
  Message and feed ids are JavaScript strings. Of a message only its \<^verbatim>\<open>key\<close> is read
  by the model; the rest of the object is carried along as \<open>msgValue\<close>.
\<close>

type_synonym MsgId = string
type_synonym FeedId = string

record MsgAndExtras =
  key :: MsgId
  msgValue :: string

datatype ErrorReason = Missing | Blocked | Unknown

text \<open>\<^verbatim>\<open>errorReason\<close> is an optional field: \<open>None\<close> is the field being absent.\<close>

record ThreadAndExtras =
  full :: bool
  messages :: "MsgAndExtras list"
  errorReason :: "ErrorReason option"

text \<open>\<^verbatim>\<open>GetReadable<T>\<close>: called with \<^verbatim>\<open>{live, old}\<close>, it gives the messages of a readable.\<close>

type_synonym GetReadable = "bool \<Rightarrow> bool \<Rightarrow> MsgAndExtras list"

record State =
  selfFeedId :: FeedId
  selfAvatarUrl :: "string option"
  rootMsgId :: MsgId
  higherRootMsgId :: "MsgId option"
  loading :: bool
  loadingReplies :: bool
  thread :: ThreadAndExtras
  subthreads :: "MsgId \<rightharpoonup> ThreadAndExtras"
  expandRootCW :: bool
  replyText :: string
  replyEditable :: bool
  getSelfRepliesReadable :: "GetReadable option"
  startedAsReply :: bool
  keyboardVisible :: bool

text \<open>
  The properties of the screen, with the fields that \<^verbatim>\<open>model\<close> reads. Every field but
  \<^verbatim>\<open>selfFeedId\<close> is read through \<^verbatim>\<open>??\<close> or a truthiness test, so it is optional:
  \<open>None\<close> is \<^verbatim>\<open>undefined\<close> (or \<^verbatim>\<open>null\<close>).
\<close>

record Props =
  props_selfFeedId :: FeedId
  props_selfAvatarUrl :: "string option"
  props_rootMsgId :: "MsgId option"
  props_rootMsg :: "MsgAndExtras option"
  props_higherRootMsgId :: "MsgId option"
  props_expandRootCW :: "bool option"
  props_replyToMsgId :: "MsgId option"

text \<open>
  \<^verbatim>\<open>subthreads\<close> is a \<^verbatim>\<open>Record<MsgId, ThreadAndExtras>\<close>: a plain object, made by \<^verbatim>\<open>{}\<close>
  and by object spread. The map \<open>subthreads\<close> holds its own properties.
\<close>

type_synonym Reducer = "State \<Rightarrow> State"

text \<open>A JavaScript exception raised while a reducer runs.\<close>

datatype Exn = TypeError

text \<open>An error of a data source: an object with a \<^verbatim>\<open>message\<close>.\<close>

datatype JsError = JsError (message: string)

text \<open>What \<^verbatim>\<open>asyncStorageSource.getItem\<close> delivers: a string, \<^verbatim>\<open>null\<close> or \<^verbatim>\<open>undefined\<close>.\<close>

datatype Stored = JsNull | JsUndefined | JsString string

section \<open>The sentinel threads\<close>

definition emptyThread :: ThreadAndExtras where
  "emptyThread = \<lparr>full = True, messages = [], errorReason = None\<rparr>"

definition missingThread :: ThreadAndExtras where
  "missingThread = \<lparr>full = True, messages = [], errorReason = Some Missing\<rparr>"

definition blockedThread :: ThreadAndExtras where
  "blockedThread = \<lparr>full = True, messages = [], errorReason = Some Blocked\<rparr>"

definition unknownErrorThread :: ThreadAndExtras where
  "unknownErrorThread = \<lparr>full = True, messages = [], errorReason = Some Unknown\<rparr>"

section \<open>JavaScript truthiness and case-insensitive regular expressions\<close>

text \<open>A string is truthy when it is not empty; \<^verbatim>\<open>undefined\<close> and \<^verbatim>\<open>null\<close> are falsy.\<close>

definition truthy :: "string option \<Rightarrow> bool" where
  "truthy v = (case v of None \<Rightarrow> False | Some s \<Rightarrow> s \<noteq> [])"

fun falsy :: "Stored \<Rightarrow> bool" where
  "falsy JsNull = True"
| "falsy JsUndefined = True"
| "falsy (JsString s) = (s = [])"

text \<open>
  The \<^verbatim>\<open>i\<close> flag compares characters after canonicalisation, which maps a letter to
  its upper case. The patterns of the model are ASCII, and a character outside ASCII
  is never canonicalised to an ASCII one, so only \<^verbatim>\<open>a\<close> to \<^verbatim>\<open>z\<close> are mapped here.
\<close>

definition canonicalize :: "char \<Rightarrow> char" where
  "canonicalize c =
     (case map_of (zip ''abcdefghijklmnopqrstuvwxyz'' ''ABCDEFGHIJKLMNOPQRSTUVWXYZ'') c of
        Some u \<Rightarrow> u
      | None \<Rightarrow> c)"

text \<open>\<open>matchHere pat s\<close>: the literal pattern matches at the start of \<open>s\<close>.\<close>

fun matchHere :: "string \<Rightarrow> string \<Rightarrow> bool" where
  "matchHere [] s = True"
| "matchHere (p # ps) [] = False"
| "matchHere (p # ps) (c # cs) = (canonicalize p = canonicalize c \<and> matchHere ps cs)"

text \<open>\<^verbatim>\<open>/pat/i.test(s)\<close> for a literal pattern: a match at some position of \<open>s\<close>.\<close>

fun regexTestI :: "string \<Rightarrow> string \<Rightarrow> bool" where
  "regexTestI pat [] = matchHere pat []"
| "regexTestI pat (c # cs) = (matchHere pat (c # cs) \<or> regexTestI pat cs)"

section \<open>The reducers\<close>

text \<open>
  \<^verbatim>\<open>props.rootMsgId ?? props.rootMsg.key\<close>: reading \<^verbatim>\<open>key\<close> of an absent root message
  throws a TypeError.
\<close>

definition resolveRootMsgId :: "Props \<Rightarrow> Exn + MsgId" where
  "resolveRootMsgId props =
     (case props_rootMsgId props of
        Some i \<Rightarrow> Inr i
      | None \<Rightarrow> (case props_rootMsg props of
                   Some m \<Rightarrow> Inr (key m)
                 | None \<Rightarrow> Inl TypeError))"

definition propsReducer :: "Props \<Rightarrow> State option \<Rightarrow> Exn + State" where
  "propsReducer props prev =
     (case resolveRootMsgId props of
        Inl e \<Rightarrow> Inl e
      | Inr rid \<Rightarrow> Inr
          \<lparr>selfFeedId = props_selfFeedId props,
           selfAvatarUrl = props_selfAvatarUrl props,
           rootMsgId = rid,
           higherRootMsgId = props_higherRootMsgId props,
           loading = True,
           loadingReplies = (props_rootMsg props \<noteq> None),
           thread = emptyThread,
           subthreads = Map.empty,
           expandRootCW = (case props_expandRootCW props of Some b \<Rightarrow> b | None \<Rightarrow> False),
           replyText = [],
           replyEditable = True,
           getSelfRepliesReadable = None,
           startedAsReply = (if truthy (props_replyToMsgId props) then True else False),
           keyboardVisible = (if truthy (props_replyToMsgId props) then True else False)\<rparr>)"

definition setRootMsgReducer :: "MsgAndExtras \<Rightarrow> Reducer" where
  "setRootMsgReducer rootMsg prev =
     (if full (thread prev) \<and> length (messages (thread prev)) > 0 then prev
      else prev\<lparr>thread := \<lparr>full = False, messages = [rootMsg], errorReason = None\<rparr>\<rparr>)"

text \<open>The handler given to \<^verbatim>\<open>replaceError\<close> on the thread of the root message.\<close>

definition classifyError :: "JsError \<Rightarrow> ThreadAndExtras" where
  "classifyError err =
     (if regexTestI ''Author Blocked'' (message err) then blockedThread
      else if regexTestI ''Not Found'' (message err) then missingThread
      else unknownErrorThread)"

definition setThreadReducer :: "ThreadAndExtras \<Rightarrow> Reducer" where
  "setThreadReducer thr prev = prev\<lparr>thread := thr, loading := False, loadingReplies := False\<rparr>"

text \<open>
  The names of the properties that a plain object inherits from \<^verbatim>\<open>Object.prototype\<close>.
  Each of them holds a function, or the prototype itself for \<^verbatim>\<open>__proto__\<close>: a truthy value.
\<close>

definition objectPrototypeNames :: "string list" where
  "objectPrototypeNames =
     [''constructor'', ''__defineGetter__'', ''__defineSetter__'', ''hasOwnProperty'',
      ''__lookupGetter__'', ''__lookupSetter__'', ''isPrototypeOf'',
      ''propertyIsEnumerable'', ''toString'', ''valueOf'', ''__proto__'',
      ''toLocaleString'']"

text \<open>
  The test \<^verbatim>\<open>if (prev.subthreads[msgId])\<close>. The read finds an own property, whose value
  is a thread object and so truthy, or else the property of that name inherited from
  \<^verbatim>\<open>Object.prototype\<close>; a name that is neither reads as \<^verbatim>\<open>undefined\<close>.
\<close>

definition subthreadTruthy :: "(MsgId \<rightharpoonup> ThreadAndExtras) \<Rightarrow> MsgId \<Rightarrow> bool" where
  "subthreadTruthy obj msgId =
     (case obj msgId of
        Some subthread \<Rightarrow> True
      | None \<Rightarrow> msgId \<in> set objectPrototypeNames)"

text \<open>
  In the other branch the computed key \<^verbatim>\<open>[msgId]\<close> of the object literal defines an own
  property of the new object.
\<close>

definition setSubthreadReducer :: "MsgId \<Rightarrow> ThreadAndExtras \<Rightarrow> Reducer" where
  "setSubthreadReducer msgId subthread prev =
     (if subthreadTruthy (subthreads prev) msgId then prev
      else prev\<lparr>subthreads := (subthreads prev)(msgId \<mapsto> subthread)\<rparr>)"

definition keyboardAppearedReducer :: Reducer where
  "keyboardAppearedReducer prev = prev\<lparr>keyboardVisible := True\<rparr>"

definition keyboardDisappearedReducer :: Reducer where
  "keyboardDisappearedReducer prev = prev\<lparr>keyboardVisible := False\<rparr>"

definition updateReplyTextReducer :: "string \<Rightarrow> Reducer" where
  "updateReplyTextReducer text prev = prev\<lparr>replyText := text\<rparr>"

definition emptyPublishedReducer :: Reducer where
  "emptyPublishedReducer prev = prev\<lparr>replyText := [], replyEditable := False\<rparr>"

definition resetEditableReducer :: Reducer where
  "resetEditableReducer prev = prev\<lparr>replyEditable := True\<rparr>"

definition emptyReplyTextReducer :: Reducer where
  "emptyReplyTextReducer prev = prev\<lparr>replyText := []\<rparr>"

definition loadReplyDraftReducer :: "Stored \<Rightarrow> Reducer" where
  "loadReplyDraftReducer replyTxt prev =
     (if falsy replyTxt then prev\<lparr>replyText := []\<rparr>
      else prev\<lparr>replyText := (case replyTxt of JsString s \<Rightarrow> s | _ \<Rightarrow> [])\<rparr>)"

definition addSelfRepliesReducer :: "MsgAndExtras \<Rightarrow> Reducer" where
  "addSelfRepliesReducer newMsg prev =
     prev\<lparr>thread := \<lparr>full = True, messages = messages (thread prev) @ [newMsg],
                       errorReason = None\<rparr>\<rparr>"

section \<open>The merged reducer stream\<close>

text \<open>The action streams of \<^verbatim>\<open>Actions\<close>: one constructor for an event of each stream.\<close>

datatype Action =
    PublishMsg
  | WillReply
  | LoadReplyDraft MsgId
  | ReplySeen MsgId
  | KeyboardAppeared
  | KeyboardDisappeared
  | UpdateReplyText string

text \<open>
  What the data sources deliver to the model: the rehydrated root message, the thread
  of the root message or the error it fails with, the thread of a seen reply or its
  error, a stored item, and the messages that the live readable of the user's own
  replies delivers after a reply was started.
\<close>

datatype Emission =
    Rehydrated MsgAndExtras
  | ThreadResult "JsError + ThreadAndExtras"
  | SubthreadResult MsgId "JsError + ThreadAndExtras"
  | Item Stored
  | SelfRepliesFeed "MsgAndExtras list"

datatype Input = Act Action | Src Emission

text \<open>The calls that the model makes on its data sources.\<close>

datatype Request =
    ThreadReq MsgId bool
  | RehydrateMessage MsgAndExtras
  | GetItem string
  | SelfRepliesReadable bool bool

text \<open>\<^verbatim>\<open>thread$(rootMsgId, false).replaceError(...)\<close> of \<^verbatim>\<open>setThreadReducer$\<close>.\<close>

definition threadOrSentinel :: "JsError + ThreadAndExtras \<Rightarrow> ThreadAndExtras" where
  "threadOrSentinel r = (case r of Inl err \<Rightarrow> classifyError err | Inr thr \<Rightarrow> thr)"

text \<open>\<^verbatim>\<open>thread$(msgId, false).replaceError(_err => xs.of(emptyThread))\<close>.\<close>

definition subthreadOrEmpty :: "JsError + ThreadAndExtras \<Rightarrow> ThreadAndExtras" where
  "subthreadOrEmpty r = (case r of Inl err \<Rightarrow> emptyThread | Inr thr \<Rightarrow> thr)"

text \<open>
  The reducers that an event puts on the merged stream, in the order of emission.
  \<^verbatim>\<open>loadReplyDraft$\<close> and \<^verbatim>\<open>replySeen$\<close> emit no reducer themselves: the reducer comes
  with the answer of the data source. Of the live readable opened for a reply,
  \<^verbatim>\<open>take(1)\<close> keeps the first message.
\<close>

fun reducersOf :: "Input \<Rightarrow> Reducer list" where
  "reducersOf (Act PublishMsg) = [emptyPublishedReducer, resetEditableReducer]"
| "reducersOf (Act WillReply) = [emptyReplyTextReducer]"
| "reducersOf (Act (LoadReplyDraft rootId)) = []"
| "reducersOf (Act (ReplySeen msgId)) = []"
| "reducersOf (Act KeyboardAppeared) = [keyboardAppearedReducer]"
| "reducersOf (Act KeyboardDisappeared) = [keyboardDisappearedReducer]"
| "reducersOf (Act (UpdateReplyText text)) = [updateReplyTextReducer text]"
| "reducersOf (Src (Rehydrated rootMsg)) = [setRootMsgReducer rootMsg]"
| "reducersOf (Src (ThreadResult r)) = [setThreadReducer (threadOrSentinel r)]"
| "reducersOf (Src (SubthreadResult msgId r)) = [setSubthreadReducer msgId (subthreadOrEmpty r)]"
| "reducersOf (Src (Item v)) = [loadReplyDraftReducer v]"
| "reducersOf (Src (SelfRepliesFeed msgs)) = map addSelfRepliesReducer (take 1 msgs)"

text \<open>
  The calls on the data sources that an event causes. The model has no access to the
  state: what it requests depends on the event alone.
\<close>

fun requestsOf :: "Input \<Rightarrow> Request list" where
  "requestsOf (Act (ReplySeen msgId)) = [ThreadReq msgId False]"
| "requestsOf (Act (LoadReplyDraft rootId)) = [GetItem (''replyDraft:'' @ rootId)]"
| "requestsOf (Act WillReply) = [SelfRepliesReadable True False]"
| "requestsOf i = []"

text \<open>\<^verbatim>\<open>props$.take(1).map(props => propsReducer)\<close>: the stream of initialization reducers.\<close>

definition propsReducerS :: "Props list \<Rightarrow> (State option \<Rightarrow> Exn + State) list" where
  "propsReducerS propss = map propsReducer (take 1 propss)"

text \<open>The calls made when the properties arrive: rehydration first, then the thread.\<close>

definition propsRequests :: "Props \<Rightarrow> Exn + Request list" where
  "propsRequests props =
     (case resolveRootMsgId props of
        Inl e \<Rightarrow> Inl e
      | Inr rid \<Rightarrow> Inr ((case props_rootMsg props of
                           Some m \<Rightarrow> [RehydrateMessage m]
                         | None \<Rightarrow> []) @ [ThreadReq rid False]))"

text \<open>
  The state stream is the fold of the reducers: \<open>foldStates s rs\<close> lists the state after
  each reducer of \<open>rs\<close>, starting from \<open>s\<close>.
\<close>

fun foldStates :: "State \<Rightarrow> Reducer list \<Rightarrow> State list" where
  "foldStates s [] = []"
| "foldStates s (r # rs) = r s # foldStates (r s) rs"

definition stateStream :: "Props \<Rightarrow> Input list \<Rightarrow> Exn + State list" where
  "stateStream props ins =
     (case propsReducer props None of
        Inl e \<Rightarrow> Inl e
      | Inr s0 \<Rightarrow> Inr (s0 # foldStates s0 (concat (map reducersOf ins))))"

text \<open>The screen together with the log of the calls made on the data sources.\<close>

record World =
  state :: State
  requested :: "Request list"

definition step :: "World \<Rightarrow> Input \<Rightarrow> World" where
  "step w i = \<lparr>state = foldl (\<lambda>s r. r s) (state w) (reducersOf i),
               requested = requested w @ requestsOf i\<rparr>"

definition runModel :: "Props \<Rightarrow> Input list \<Rightarrow> Exn + World" where
  "runModel props ins =
     (case propsReducer props None of
        Inl e \<Rightarrow> Inl e
      | Inr s0 \<Rightarrow> (case propsRequests props of
                    Inl e \<Rightarrow> Inl e
                  | Inr reqs \<Rightarrow> Inr (foldl step \<lparr>state = s0, requested = reqs\<rparr> ins)))"

text \<open>How often the flag of a state stream goes from true to false.\<close>

fun becomesFalse :: "bool list \<Rightarrow> nat" where
  "becomesFalse (a # b # bs) = (if a \<and> \<not> b then 1 else 0) + becomesFalse (b # bs)"
| "becomesFalse bs = 0"

definition isThreadResult :: "Input \<Rightarrow> bool" where
  "isThreadResult i = (case i of Src (ThreadResult r) \<Rightarrow> True | _ \<Rightarrow> False)"

text \<open>The flag \<^verbatim>\<open>loading\<close> along the state stream.\<close>

definition loadingFlags :: "Props \<Rightarrow> Input list \<Rightarrow> Exn + bool list" where
  "loadingFlags props ins = map_sum id (map loading) (stateStream props ins)"

text \<open>
  The reducers emitted before the first completion of the thread load, and those
  emitted from it on (the first of them installs the thread).
\<close>

definition reducersBeforeThread :: "Input list \<Rightarrow> Reducer list" where
  "reducersBeforeThread ins = concat (map reducersOf (takeWhile (\<lambda>i. \<not> isThreadResult i) ins))"

definition reducersFromThread :: "Input list \<Rightarrow> Reducer list" where
  "reducersFromThread ins = concat (map reducersOf (dropWhile (\<lambda>i. \<not> isThreadResult i) ins))"

text \<open>How often \<^verbatim>\<open>thread$(msgId, false)\<close> has been called.\<close>

definition threadCalls :: "MsgId \<Rightarrow> World \<Rightarrow> nat" where
  "threadCalls msgId w = count_list (requested w) (ThreadReq msgId False)"

section \<open>Example values\<close>

definition exampleMsg :: MsgAndExtras where
  "exampleMsg = \<lparr>key = ''%root.sha256'', msgValue = ''hello world''\<rparr>"

definition exampleThread :: ThreadAndExtras where
  "exampleThread = \<lparr>full = True, messages = [exampleMsg], errorReason = None\<rparr>"

definition exampleProps :: Props where
  "exampleProps =
     \<lparr>props_selfFeedId = ''@self.ed25519'',
      props_selfAvatarUrl = None,
      props_rootMsgId = None,
      props_rootMsg = Some exampleMsg,
      props_higherRootMsgId = None,
      props_expandRootCW = None,
      props_replyToMsgId = Some ''%reply.sha256''\<rparr>"

text \<open>The state that \<open>propsReducer exampleProps\<close> gives.\<close>

definition exampleState :: State where
  "exampleState =
     \<lparr>selfFeedId = ''@self.ed25519'',
      selfAvatarUrl = None,
      rootMsgId = ''%root.sha256'',
      higherRootMsgId = None,
      loading = True,
      loadingReplies = True,
      thread = emptyThread,
      subthreads = Map.empty,
      expandRootCW = False,
      replyText = [],
      replyEditable = True,
      getSelfRepliesReadable = None,
      startedAsReply = True,
      keyboardVisible = True\<rparr>"

section \<open>Facts about the regular-expression test\<close>

lemma matchHere_iff:
  "matchHere pat s \<longleftrightarrow>
     (\<exists>mid post. s = mid @ post \<and> map canonicalize mid = map canonicalize pat)"
proof (induction pat s rule: matchHere.induct)
  case (1 s)
  then show ?case by simp
next
  case (2 p ps)
  then show ?case by simp
next
  case (3 p ps c cs)
  show ?case
  proof
    assume "matchHere (p # ps) (c # cs)"
    then obtain mid post where "cs = mid @ post" "map canonicalize mid = map canonicalize ps"
      and "canonicalize p = canonicalize c"
      using 3 by auto
    then have "c # cs = (c # mid) @ post
               \<and> map canonicalize (c # mid) = map canonicalize (p # ps)"
      by simp
    then show "\<exists>mid post. c # cs = mid @ post
                 \<and> map canonicalize mid = map canonicalize (p # ps)"
      by blast
  next
    assume "\<exists>mid post. c # cs = mid @ post
              \<and> map canonicalize mid = map canonicalize (p # ps)"
    then obtain mid post where m: "c # cs = mid @ post"
        "map canonicalize mid = map canonicalize (p # ps)"
      by blast
    then obtain m ms where "mid = m # ms" by (cases mid) auto
    with m 3 show "matchHere (p # ps) (c # cs)" by auto
  qed
qed

text \<open>
  The test succeeds exactly on the texts that contain the pattern up to the case of
  the letters.
\<close>

lemma regexTestI_iff:
  "regexTestI pat s \<longleftrightarrow>
     (\<exists>pre mid post. s = pre @ mid @ post \<and> map canonicalize mid = map canonicalize pat)"
proof (induction s)
  case Nil
  then show ?case by (auto simp: matchHere_iff)
next
  case (Cons c cs)
  show ?case
  proof
    assume "regexTestI pat (c # cs)"
    then consider "matchHere pat (c # cs)" | "regexTestI pat cs" by auto
    then show "\<exists>pre mid post. c # cs = pre @ mid @ post
                 \<and> map canonicalize mid = map canonicalize pat"
    proof cases
      case 1
      then obtain mid post where "c # cs = [] @ mid @ post"
          "map canonicalize mid = map canonicalize pat"
        by (auto simp: matchHere_iff)
      then show ?thesis by blast
    next
      case 2
      then obtain pre mid post where "cs = pre @ mid @ post"
          "map canonicalize mid = map canonicalize pat"
        using Cons by blast
      then have "c # cs = (c # pre) @ mid @ post
                 \<and> map canonicalize mid = map canonicalize pat"
        by simp
      then show ?thesis by blast
    qed
  next
    assume "\<exists>pre mid post. c # cs = pre @ mid @ post
              \<and> map canonicalize mid = map canonicalize pat"
    then obtain pre mid post where m: "c # cs = pre @ mid @ post"
        "map canonicalize mid = map canonicalize pat"
      by blast
    show "regexTestI pat (c # cs)"
    proof (cases pre)
      case Nil
      with m have "matchHere pat (c # cs)" by (auto simp: matchHere_iff)
      then show ?thesis by simp
    next
      case (Cons a pre')
      with m have "cs = pre' @ mid @ post" by simp
      with m Cons.IH have "regexTestI pat cs" by blast
      then show ?thesis by simp
    qed
  qed
qed

text \<open>
  The classification on four messages: lower case matches, the test for a blocked
  author comes first, and a message with neither phrase is unknown.
\<close>

lemma classifyError_examples:
  "errorReason (classifyError (JsError ''Error: author blocked by you'')) = Some Blocked"
  "errorReason (classifyError (JsError ''key not found in db'')) = Some Missing"
  "errorReason (classifyError (JsError ''Author Blocked: Not Found'')) = Some Blocked"
  "errorReason (classifyError (JsError ''connection lost'')) = Some Unknown"
  by code_simp+

section \<open>Thread load and its failures\<close>

text \<open>
  C1. When the load of the thread fails, the one reducer it puts on the stream installs
  the sentinel chosen from the text of the error message, the tests being made in this
  order: a message that matches \<^verbatim>\<open>/Author Blocked/i\<close> gives the reason blocked; otherwise
  a message that matches \<^verbatim>\<open>/Not Found/i\<close> gives the reason missing; any other message
  gives the reason unknown. In every case the installed thread is full and has no
  messages, and the reducer sets \<^verbatim>\<open>loading\<close> and \<^verbatim>\<open>loadingReplies\<close> to false.
\<close>

theorem thread_load_failure_sentinel:
  "reducersOf (Src (ThreadResult (Inl err))) = [setThreadReducer (classifyError err)]
   \<and> errorReason (thread (setThreadReducer (classifyError err) prev)) =
       Some (if regexTestI ''Author Blocked'' (message err) then Blocked
             else if regexTestI ''Not Found'' (message err) then Missing
             else Unknown)
   \<and> full (thread (setThreadReducer (classifyError err) prev)) = True
   \<and> messages (thread (setThreadReducer (classifyError err) prev)) = []
   \<and> loading (setThreadReducer (classifyError err) prev) = False
   \<and> loadingReplies (setThreadReducer (classifyError err) prev) = False"
  by (simp add: threadOrSentinel_def setThreadReducer_def classifyError_def
      blockedThread_def missingThread_def unknownErrorThread_def)

section \<open>Hydration of the root message\<close>

text \<open>
  C2. The reducer that installs the rehydrated root message returns the previous state
  as it is when the previous thread is full and has a message; in every other case it
  returns the previous state with the thread replaced by a thread that is not full
  and holds the rehydrated root message alone. So a full thread that was loaded is
  never replaced by the placeholder.
\<close>

theorem setRootMsgReducer_guard:
  "(full (thread prev) \<and> messages (thread prev) \<noteq> [] \<longrightarrow>
      setRootMsgReducer rootMsg prev = prev)
   \<and> (\<not> (full (thread prev) \<and> messages (thread prev) \<noteq> []) \<longrightarrow>
        setRootMsgReducer rootMsg prev =
          prev\<lparr>thread := \<lparr>full = False, messages = [rootMsg], errorReason = None\<rparr>\<rparr>
        \<and> full (thread (setRootMsgReducer rootMsg prev)) = False
        \<and> messages (thread (setRootMsgReducer rootMsg prev)) = [rootMsg])"
  by (simp add: setRootMsgReducer_def)

theorem setRootMsgReducer_guard_witness:
  "full (thread (setThreadReducer exampleThread exampleState))
   \<and> messages (thread (setThreadReducer exampleThread exampleState)) \<noteq> []
   \<and> setRootMsgReducer exampleMsg (setThreadReducer exampleThread exampleState) =
       setThreadReducer exampleThread exampleState
   \<and> \<not> (full (thread exampleState) \<and> messages (thread exampleState) \<noteq> [])
   \<and> thread (setRootMsgReducer exampleMsg exampleState) =
       \<lparr>full = False, messages = [exampleMsg], errorReason = None\<rparr>"
  using setRootMsgReducer_guard[of "setThreadReducer exampleThread exampleState" exampleMsg]
    setRootMsgReducer_guard[of exampleState exampleMsg]
  by (simp add: setThreadReducer_def exampleThread_def exampleState_def emptyThread_def)

section \<open>Sub-threads\<close>

lemmas reducer_defs =
  setRootMsgReducer_def setThreadReducer_def setSubthreadReducer_def subthreadTruthy_def
  keyboardAppearedReducer_def keyboardDisappearedReducer_def updateReplyTextReducer_def
  emptyPublishedReducer_def resetEditableReducer_def emptyReplyTextReducer_def
  loadReplyDraftReducer_def addSelfRepliesReducer_def

text \<open>No reducer of the merged stream removes or replaces a cached sub-thread.\<close>

lemma reducersOf_keeps_subthreads:
  assumes "r \<in> set (reducersOf i)" and "subthreads s msgId = Some t"
  shows "subthreads (r s) msgId = Some t"
proof (cases i)
  case (Act a)
  with assms show ?thesis by (cases a) (auto simp: reducer_defs)
next
  case (Src e)
  with assms show ?thesis
    by (cases e) (auto simp: reducer_defs dest!: in_set_takeD)
qed

lemma foldl_keeps_subthreads:
  assumes "\<And>r s. r \<in> set rs \<Longrightarrow> subthreads s msgId = Some t \<Longrightarrow>
             subthreads (r s) msgId = Some t"
    and "subthreads s msgId = Some t"
  shows "subthreads (foldl (\<lambda>s r. r s) s rs) msgId = Some t"
  using assms by (induction rs arbitrary: s) simp_all

lemma step_keeps_subthreads:
  "subthreads (state w) msgId = Some t \<Longrightarrow> subthreads (state (step w i)) msgId = Some t"
  using foldl_keeps_subthreads[of "reducersOf i" msgId t "state w"]
    reducersOf_keeps_subthreads[of _ i]
  by (simp add: step_def)

lemma run_keeps_subthreads:
  "subthreads (state w) msgId = Some t \<Longrightarrow>
   subthreads (state (foldl step w ins)) msgId = Some t"
  by (induction ins arbitrary: w) (simp_all add: step_keeps_subthreads)

text \<open>
  C3, as amended. Once \<^verbatim>\<open>subthreads[msgId]\<close> is defined, a sub-thread reducer for that id
  returns the previous state as it is; when it is not defined, and the id is not the
  name of a property inherited from \<^verbatim>\<open>Object.prototype\<close> (no message id, of the form
  \<^verbatim>\<open>%...sha256\<close>, is), the reducer adds the entry and changes nothing else. So of two
  loads for one id the first wins, and the entry stays what it is through every later
  event. For an inherited name the reducer returns the previous state and caches
  nothing. The load itself is not guarded: every reply-seen event calls
  \<^verbatim>\<open>thread$(msgId, false)\<close> once more, cached or not, and the result of a repeated load
  is dropped by the reducer.
\<close>

theorem subthread_first_load_wins:
  "(subthreads prev msgId \<noteq> None \<longrightarrow> setSubthreadReducer msgId sub prev = prev)
   \<and> (subthreads prev msgId = None \<and> msgId \<notin> set objectPrototypeNames \<longrightarrow>
        setSubthreadReducer msgId sub prev =
          prev\<lparr>subthreads := (subthreads prev)(msgId \<mapsto> sub)\<rparr>)
   \<and> (msgId \<in> set objectPrototypeNames \<longrightarrow> setSubthreadReducer msgId sub prev = prev)
   \<and> setSubthreadReducer msgId sub2 (setSubthreadReducer msgId sub1 prev) =
       setSubthreadReducer msgId sub1 prev
   \<and> (subthreads (state w) msgId = Some t \<longrightarrow>
        subthreads (state (foldl step w ins)) msgId = Some t)
   \<and> requested (step w (Act (ReplySeen msgId))) = requested w @ [ThreadReq msgId False]
   \<and> threadCalls msgId (step w (Act (ReplySeen msgId))) = Suc (threadCalls msgId w)"
proof -
  have idem: "setSubthreadReducer msgId sub2 (setSubthreadReducer msgId sub1 prev) =
              setSubthreadReducer msgId sub1 prev"
    by (simp add: setSubthreadReducer_def subthreadTruthy_def split: option.splits)
  have branches: "(subthreads prev msgId \<noteq> None \<longrightarrow> setSubthreadReducer msgId sub prev = prev)
      \<and> (subthreads prev msgId = None \<and> msgId \<notin> set objectPrototypeNames \<longrightarrow>
           setSubthreadReducer msgId sub prev =
             prev\<lparr>subthreads := (subthreads prev)(msgId \<mapsto> sub)\<rparr>)
      \<and> (msgId \<in> set objectPrototypeNames \<longrightarrow> setSubthreadReducer msgId sub prev = prev)"
    by (auto simp: setSubthreadReducer_def subthreadTruthy_def split: option.splits)
  have calls: "requested (step w (Act (ReplySeen msgId))) = requested w @ [ThreadReq msgId False]
      \<and> threadCalls msgId (step w (Act (ReplySeen msgId))) = Suc (threadCalls msgId w)"
    by (simp add: step_def threadCalls_def)
  from idem branches calls show ?thesis
    using run_keeps_subthreads[of w msgId t ins] by blast
qed

theorem subthread_first_load_wins_witness:
  "subthreads exampleState ''%reply.sha256'' = None
   \<and> ''%reply.sha256'' \<notin> set objectPrototypeNames
   \<and> setSubthreadReducer ''%reply.sha256'' exampleThread exampleState
     = exampleState\<lparr>subthreads := (subthreads exampleState)(''%reply.sha256'' \<mapsto> exampleThread)\<rparr>
   \<and> setSubthreadReducer ''%reply.sha256'' emptyThread
       (setSubthreadReducer ''%reply.sha256'' exampleThread exampleState)
     = setSubthreadReducer ''%reply.sha256'' exampleThread exampleState
   \<and> subthreads (state (foldl step
        \<lparr>state = setSubthreadReducer ''%reply.sha256'' exampleThread exampleState,
         requested = []\<rparr>
        [Act (ReplySeen ''%reply.sha256''),
         Src (SubthreadResult ''%reply.sha256'' (Inr emptyThread))])) ''%reply.sha256''
     = Some exampleThread
   \<and> ''constructor'' \<in> set objectPrototypeNames
   \<and> setSubthreadReducer ''constructor'' exampleThread exampleState = exampleState"
proof -
  let ?s = "setSubthreadReducer ''%reply.sha256'' exampleThread exampleState"
  let ?w = "\<lparr>state = ?s, requested = []\<rparr>"
  have e: "subthreads exampleState ''%reply.sha256'' = None"
    by (simp add: exampleState_def)
  have p: "''%reply.sha256'' \<notin> set objectPrototypeNames"
    by (simp add: objectPrototypeNames_def)
  have q: "''constructor'' \<in> set objectPrototypeNames"
    by (simp add: objectPrototypeNames_def)
  have a: "?s = exampleState\<lparr>subthreads :=
                  (subthreads exampleState)(''%reply.sha256'' \<mapsto> exampleThread)\<rparr>"
    using e p subthread_first_load_wins[where prev = exampleState
        and msgId = "''%reply.sha256''" and sub = exampleThread]
    by blast
  then have c: "subthreads ?s ''%reply.sha256'' = Some exampleThread" by simp
  then have c': "subthreads (state ?w) ''%reply.sha256'' = Some exampleThread" by simp
  have n: "subthreads ?s ''%reply.sha256'' \<noteq> None" using c by simp
  note inst = subthread_first_load_wins[where prev = "?s" and msgId = "''%reply.sha256''"
      and sub = emptyThread and w = "?w" and t = exampleThread
      and ins = "[Act (ReplySeen ''%reply.sha256''),
                  Src (SubthreadResult ''%reply.sha256'' (Inr emptyThread))]"]
  from inst n have i: "setSubthreadReducer ''%reply.sha256'' emptyThread ?s = ?s" by blast
  from inst c' have r: "subthreads (state (foldl step ?w
        [Act (ReplySeen ''%reply.sha256''),
         Src (SubthreadResult ''%reply.sha256'' (Inr emptyThread))])) ''%reply.sha256''
     = Some exampleThread" by blast
  have k: "setSubthreadReducer ''constructor'' exampleThread exampleState = exampleState"
    using q subthread_first_load_wins[where prev = exampleState
        and msgId = "''constructor''" and sub = exampleThread]
    by blast
  from e p a i r q k show ?thesis by blast
qed

text \<open>
  The claim as stated fails: after a reply-seen event and the arrival of its thread the
  id is cached and \<^verbatim>\<open>thread$\<close> has been called once for it; a second reply-seen event
  for the same id calls \<^verbatim>\<open>thread$\<close> a second time.
\<close>

theorem subthread_reloaded_counterexample:
  "map_sum id (\<lambda>w. subthreads (state w) ''%reply.sha256'')
     (runModel exampleProps
        [Act (ReplySeen ''%reply.sha256''),
         Src (SubthreadResult ''%reply.sha256'' (Inr exampleThread))])
     = Inr (Some exampleThread)
   \<and> map_sum id (threadCalls ''%reply.sha256'')
     (runModel exampleProps
        [Act (ReplySeen ''%reply.sha256''),
         Src (SubthreadResult ''%reply.sha256'' (Inr exampleThread))])
     = Inr 1
   \<and> map_sum id (threadCalls ''%reply.sha256'')
     (runModel exampleProps
        [Act (ReplySeen ''%reply.sha256''),
         Src (SubthreadResult ''%reply.sha256'' (Inr exampleThread)),
         Act (ReplySeen ''%reply.sha256'')])
     = Inr 2"
  by (simp add: runModel_def propsReducer_def propsRequests_def resolveRootMsgId_def
      exampleProps_def exampleMsg_def step_def setSubthreadReducer_def subthreadOrEmpty_def
      subthreadTruthy_def objectPrototypeNames_def threadCalls_def)

section \<open>Publishing a reply\<close>

text \<open>
  C4. A publish action puts exactly two reducers on the stream, one right after the
  other. The state after the first has \<^verbatim>\<open>replyEditable\<close> false and an empty
  \<^verbatim>\<open>replyText\<close>; the state after the second has \<^verbatim>\<open>replyEditable\<close> true, and the second
  reducer leaves \<^verbatim>\<open>replyText\<close> as it was.
\<close>

theorem publish_two_reducers:
  "reducersOf (Act PublishMsg) = [emptyPublishedReducer, resetEditableReducer]
   \<and> length (reducersOf (Act PublishMsg)) = 2
   \<and> foldStates prev (reducersOf (Act PublishMsg)) =
       [emptyPublishedReducer prev, resetEditableReducer (emptyPublishedReducer prev)]
   \<and> replyEditable (emptyPublishedReducer prev) = False
   \<and> replyText (emptyPublishedReducer prev) = []
   \<and> replyEditable (resetEditableReducer (emptyPublishedReducer prev)) = True
   \<and> replyText (resetEditableReducer s) = replyText s"
  by (simp add: emptyPublishedReducer_def resetEditableReducer_def)

section \<open>The loading flag along the state stream\<close>

text \<open>Only the reducer that installs the thread changes \<^verbatim>\<open>loading\<close>.\<close>

lemma reducersOf_keeps_loading:
  assumes "\<not> isThreadResult i" and "r \<in> set (reducersOf i)"
  shows "loading (r s) = loading s"
proof (cases i)
  case (Act a)
  with assms(2) show ?thesis by (cases a) (auto simp: reducer_defs)
next
  case (Src e)
  with assms show ?thesis
    by (cases e) (auto simp: reducer_defs isThreadResult_def dest!: in_set_takeD)
qed

lemma reducersOf_keeps_loaded:
  assumes "r \<in> set (reducersOf i)" and "\<not> loading s"
  shows "\<not> loading (r s)"
proof (cases "isThreadResult i")
  case False
  with assms show ?thesis by (simp add: reducersOf_keeps_loading)
next
  case True
  then obtain res where "i = Src (ThreadResult res)"
    by (auto simp: isThreadResult_def split: Input.splits Emission.splits)
  with assms show ?thesis by (simp add: setThreadReducer_def)
qed

lemma foldStates_append:
  "foldStates s (rs @ rs') = foldStates s rs @ foldStates (foldl (\<lambda>s r. r s) s rs) rs'"
  by (induction rs arbitrary: s) simp_all

lemma foldStates_loading_kept:
  assumes "\<And>r s. r \<in> set rs \<Longrightarrow> loading (r s) = loading s"
  shows "map loading (foldStates s rs) = replicate (length rs) (loading s)
         \<and> loading (foldl (\<lambda>s r. r s) s rs) = loading s"
  using assms by (induction rs arbitrary: s) simp_all

lemma foldStates_loaded_kept:
  assumes "\<And>r s. r \<in> set rs \<Longrightarrow> \<not> loading s \<Longrightarrow> \<not> loading (r s)"
    and "\<not> loading s"
  shows "map loading (foldStates s rs) = replicate (length rs) False"
  using assms by (induction rs arbitrary: s) simp_all

lemma before_keeps_loading:
  "r \<in> set (reducersBeforeThread ins) \<Longrightarrow> loading (r s) = loading s"
  unfolding reducersBeforeThread_def
  by (auto dest!: set_takeWhileD simp: reducersOf_keeps_loading)

lemma from_keeps_loaded:
  "r \<in> set (reducersFromThread ins) \<Longrightarrow> \<not> loading s \<Longrightarrow> \<not> loading (r s)"
  unfolding reducersFromThread_def
  using reducersOf_keeps_loaded by (auto dest!: set_dropWhileD)

lemma before_append_from:
  "concat (map reducersOf ins) = reducersBeforeThread ins @ reducersFromThread ins"
  unfolding reducersBeforeThread_def reducersFromThread_def
  by (simp flip: concat_append map_append)

text \<open>
  Either no thread load completes and nothing is emitted "from it on", or the first
  reducer emitted from it on installs the thread.
\<close>

lemma from_thread_head:
  "reducersFromThread ins = [] \<and> \<not> (\<exists>i \<in> set ins. isThreadResult i)
   \<or> (\<exists>thr rs. reducersFromThread ins = setThreadReducer thr # rs
         \<and> (\<exists>i \<in> set ins. isThreadResult i))"
proof (cases "dropWhile (\<lambda>i. \<not> isThreadResult i) ins")
  case Nil
  then have "\<forall>i \<in> set ins. \<not> isThreadResult i"
    by (simp add: dropWhile_eq_Nil_conv)
  then show ?thesis unfolding reducersFromThread_def Nil by simp
next
  case (Cons i rest)
  then have "isThreadResult i"
    using hd_dropWhile[of "\<lambda>i. \<not> isThreadResult i" ins] by auto
  moreover have "i \<in> set ins"
    using Cons set_dropWhileD[of i "\<lambda>i. \<not> isThreadResult i" ins] by simp
  moreover obtain res where "i = Src (ThreadResult res)"
    using \<open>isThreadResult i\<close>
    by (auto simp: isThreadResult_def split: Input.splits Emission.splits)
  ultimately show ?thesis using Cons by (auto simp: reducersFromThread_def)
qed

lemma loading_trace:
  assumes "loading s0"
  shows "map loading (s0 # foldStates s0 (concat (map reducersOf ins))) =
           replicate (Suc (length (reducersBeforeThread ins))) True
           @ replicate (length (reducersFromThread ins)) False"
proof -
  let ?A = "reducersBeforeThread ins" and ?B = "reducersFromThread ins"
  let ?sA = "foldl (\<lambda>s r. r s) s0 ?A"
  have A: "map loading (foldStates s0 ?A) = replicate (length ?A) True" and sA: "loading ?sA"
    using foldStates_loading_kept[of ?A s0] before_keeps_loading assms by auto
  have B: "map loading (foldStates ?sA ?B) = replicate (length ?B) False"
  proof -
    consider "?B = []" | thr rs where "?B = setThreadReducer thr # rs"
      using from_thread_head[of ins] by blast
    then show ?thesis
    proof cases
      case 1
      then show ?thesis by simp
    next
      case 2
      have "\<And>r s. r \<in> set rs \<Longrightarrow> \<not> loading s \<Longrightarrow> \<not> loading (r s)"
        using from_keeps_loaded[of _ ins] 2 by simp
      moreover have nl: "\<not> loading (setThreadReducer thr ?sA)"
        by (simp add: setThreadReducer_def)
      ultimately have "map loading (foldStates (setThreadReducer thr ?sA) rs) =
                       replicate (length rs) False"
        by (rule foldStates_loaded_kept)
      with 2 nl show ?thesis by simp
    qed
  qed
  show ?thesis
    using assms A B by (simp add: before_append_from foldStates_append)
qed

lemma becomesFalse_step:
  "becomesFalse (replicate (Suc n) True @ replicate m False) = (if m = 0 then 0 else 1)"
proof (induction n)
  case 0
  have "becomesFalse (replicate k False) = 0" for k
  proof (induction k)
    case (Suc k)
    then show ?case by (cases k) simp_all
  qed simp
  then have "becomesFalse (False # replicate k False) = 0" for k
    using replicate_Suc[of k False] by metis
  then show ?case by (cases m) simp_all
next
  case (Suc n)
  then show ?case by simp
qed

text \<open>
  C5, as amended. Along the state stream of any sequence of actions and data-source
  emissions, \<^verbatim>\<open>loading\<close> is true in the initial state and after every reducer emitted
  before the first completion of the thread load, and false after the reducer that
  installs that thread and after every later reducer. So the flag becomes false at
  most once: exactly once when a thread load completes (with a thread or with an
  error), and never when none does. No reducer of the stream sets \<^verbatim>\<open>loading\<close> back
  to true.
\<close>

theorem loading_cleared_by_thread_load:
  assumes "loadingFlags props ins = Inr flags"
  shows "flags = replicate (Suc (length (reducersBeforeThread ins))) True
                 @ replicate (length (reducersFromThread ins)) False
    \<and> becomesFalse flags = (if \<exists>i \<in> set ins. isThreadResult i then 1 else 0)
    \<and> (\<forall>i r s. r \<in> set (reducersOf i) \<and> \<not> loading s \<longrightarrow> \<not> loading (r s))"
proof -
  from assms obtain s0 where s0: "propsReducer props None = Inr s0"
    and flags: "flags = map loading (s0 # foldStates s0 (concat (map reducersOf ins)))"
    by (auto simp: loadingFlags_def stateStream_def split: sum.splits)
  from s0 have "loading s0"
    by (auto simp: propsReducer_def split: sum.splits)
  then have tr: "flags = replicate (Suc (length (reducersBeforeThread ins))) True
                 @ replicate (length (reducersFromThread ins)) False"
    unfolding flags by (rule loading_trace)
  have "(reducersFromThread ins = []) \<longleftrightarrow> \<not> (\<exists>i \<in> set ins. isThreadResult i)"
    using from_thread_head[of ins] by auto
  then have "becomesFalse flags = (if \<exists>i \<in> set ins. isThreadResult i then 1 else 0)"
    unfolding tr becomesFalse_step by simp
  with tr show ?thesis using reducersOf_keeps_loaded by blast
qed

theorem loading_cleared_by_thread_load_witness:
  "loadingFlags exampleProps
     [Act KeyboardAppeared, Src (ThreadResult (Inr exampleThread)), Act PublishMsg]
     = Inr [True, True, False, False, False]
   \<and> becomesFalse [True, True, False, False, False] = 1"
proof -
  have h: "loadingFlags exampleProps
     [Act KeyboardAppeared, Src (ThreadResult (Inr exampleThread)), Act PublishMsg]
     = Inr [True, True, False, False, False]"
    by (simp add: loadingFlags_def stateStream_def propsReducer_def resolveRootMsgId_def
      exampleProps_def reducer_defs)
  have "becomesFalse [True, True, False, False, False] =
          (if \<exists>i \<in> set [Act KeyboardAppeared, Src (ThreadResult (Inr exampleThread)),
                          Act PublishMsg].
                isThreadResult i then 1 else 0)"
    using loading_cleared_by_thread_load[OF h] by blast
  then have "becomesFalse [True, True, False, False, False] = 1"
    by (simp add: isThreadResult_def)
  with h show ?thesis by blast
qed

text \<open>
  The claim as stated fails on a sequence in which the thread load never completes:
  the screen stays loading, and the flag becomes false zero times.
\<close>

theorem loading_exactly_once_counterexample:
  "loadingFlags exampleProps [Act KeyboardAppeared, Act (UpdateReplyText ''hi'')]
     = Inr [True, True, True]
   \<and> becomesFalse [True, True, True] = 0"
  by (simp add: loadingFlags_def stateStream_def propsReducer_def resolveRootMsgId_def
      exampleProps_def reducer_defs)

section \<open>Reply drafts\<close>

text \<open>
  C6. The reducer made from the fetched draft sets \<^verbatim>\<open>replyText\<close> to the empty string
  when the fetched value is falsy, that is \<^verbatim>\<open>null\<close>, \<^verbatim>\<open>undefined\<close> or the empty string,
  and to the stored string as it is otherwise. A stored empty string and an absent
  entry both give an empty \<^verbatim>\<open>replyText\<close>; the stored value \<^verbatim>\<open>"hello"\<close> gives \<^verbatim>\<open>"hello"\<close>.
\<close>

theorem loadReplyDraft_truthiness:
  "reducersOf (Src (Item v)) = [loadReplyDraftReducer v]
   \<and> replyText (loadReplyDraftReducer v prev) =
       (if falsy v then [] else case v of JsString s \<Rightarrow> s | _ \<Rightarrow> [])
   \<and> replyText (loadReplyDraftReducer JsNull prev) = []
   \<and> replyText (loadReplyDraftReducer JsUndefined prev) = []
   \<and> replyText (loadReplyDraftReducer (JsString []) prev) = []
   \<and> replyText (loadReplyDraftReducer (JsString s) prev) = s
   \<and> replyText (loadReplyDraftReducer (JsString ''hello'') prev) = ''hello''"
  by (simp add: loadReplyDraftReducer_def)

section \<open>Echo of the user's own reply\<close>

text \<open>
  C7. The reducer made from a self-reply gives a state whose thread has the previous
  messages followed by that one message, and is full; the rest of the state is as
  before. Of the messages that the live readable delivers after a reply was started,
  only the first is made into a reducer.
\<close>

theorem addSelfReplies_appends:
  "messages (thread (addSelfRepliesReducer newMsg prev)) = messages (thread prev) @ [newMsg]
   \<and> full (thread (addSelfRepliesReducer newMsg prev)) = True
   \<and> (addSelfRepliesReducer newMsg prev)\<lparr>thread := thread prev\<rparr> = prev
   \<and> reducersOf (Src (SelfRepliesFeed (newMsg # later))) = [addSelfRepliesReducer newMsg]
   \<and> reducersOf (Src (SelfRepliesFeed [])) = []"
  by (simp add: addSelfRepliesReducer_def)

section \<open>Initialization\<close>

text \<open>Without a root message id and without a root message the reducer throws.\<close>

lemma propsReducer_throws:
  "props_rootMsgId props = None \<Longrightarrow> props_rootMsg props = None \<Longrightarrow>
   propsReducer props prev = Inl TypeError"
  by (simp add: propsReducer_def resolveRootMsgId_def)

text \<open>
  C8. Of the stream of properties only the first value is made into an initialization
  reducer. For properties that carry a root message id or a root message, the state it
  gives has: as root message id the explicit \<^verbatim>\<open>rootMsgId\<close> when it is present, otherwise
  the key of the root message; \<^verbatim>\<open>loading\<close> true; \<^verbatim>\<open>loadingReplies\<close> true exactly when a
  root message was supplied; the empty thread, which is full, has no messages and no
  error; \<^verbatim>\<open>startedAsReply\<close> and \<^verbatim>\<open>keyboardVisible\<close> both true exactly when a reply target
  was specified, which the source tests as \<^verbatim>\<open>replyToMsgId\<close> being truthy (a message id,
  not the empty string).
\<close>

theorem propsReducer_initial_state:
  assumes "props_rootMsgId props \<noteq> None \<or> props_rootMsg props \<noteq> None"
  shows "propsReducerS (props # later) = [propsReducer props]
    \<and> (\<exists>s. propsReducer props prev = Inr s
          \<and> (\<forall>i. props_rootMsgId props = Some i \<longrightarrow> rootMsgId s = i)
          \<and> (\<forall>m. props_rootMsgId props = None \<and> props_rootMsg props = Some m \<longrightarrow>
                 rootMsgId s = key m)
          \<and> loading s = True
          \<and> (loadingReplies s \<longleftrightarrow> props_rootMsg props \<noteq> None)
          \<and> thread s = emptyThread \<and> full (thread s) = True \<and> messages (thread s) = []
          \<and> errorReason (thread s) = None
          \<and> (startedAsReply s \<longleftrightarrow> truthy (props_replyToMsgId props))
          \<and> (keyboardVisible s \<longleftrightarrow> truthy (props_replyToMsgId props)))"
  using assms
  by (auto simp: propsReducerS_def propsReducer_def resolveRootMsgId_def emptyThread_def
      split: option.splits)

theorem propsReducer_initial_state_witness:
  "props_rootMsg exampleProps \<noteq> None
   \<and> propsReducerS [exampleProps, exampleProps] = [propsReducer exampleProps]
   \<and> propsReducer exampleProps None = Inr exampleState
   \<and> rootMsgId exampleState = key exampleMsg
   \<and> truthy (props_replyToMsgId exampleProps)
   \<and> startedAsReply exampleState \<and> keyboardVisible exampleState"
proof -
  have h: "props_rootMsgId exampleProps \<noteq> None \<or> props_rootMsg exampleProps \<noteq> None"
    by (simp add: exampleProps_def)
  have e: "propsReducer exampleProps None = Inr exampleState"
    by (simp add: propsReducer_def resolveRootMsgId_def exampleProps_def exampleState_def
        exampleMsg_def truthy_def)
  have "propsReducerS [exampleProps, exampleProps] = [propsReducer exampleProps]"
    using propsReducer_initial_state[OF h, of "[exampleProps]"] by blast
  with e show ?thesis
    by (simp add: exampleProps_def exampleState_def exampleMsg_def truthy_def)
qed

text \<open>
  C9. The initialization reducer does not read the previous state: for the same
  properties it gives the same result from any two previous states, and from no
  previous state at all.
\<close>

theorem propsReducer_ignores_prev:
  "propsReducer props prev1 = propsReducer props prev2
   \<and> propsReducer props None = propsReducer props (Some s)"
  by (simp add: propsReducer_def)

section \<open>The echo of a self-reply and the error of the thread\<close>

text \<open>
  C10. The thread that the self-reply reducer builds has no \<^verbatim>\<open>errorReason\<close>, whatever
  reason the previous thread carried: the new thread is made of the messages and
  \<^verbatim>\<open>full = true\<close> alone. Applied to a state that holds an error sentinel, it gives the
  full thread of the one appended message, without an error.
\<close>

theorem addSelfReplies_drops_errorReason:
  "errorReason (thread (addSelfRepliesReducer newMsg prev)) = None
   \<and> errorReason (thread (addSelfRepliesReducer newMsg
        (prev\<lparr>thread := (thread prev)\<lparr>errorReason := Some reason\<rparr>\<rparr>))) = None
   \<and> thread (addSelfRepliesReducer newMsg (setThreadReducer (classifyError err) prev)) =
       \<lparr>full = True, messages = [newMsg], errorReason = None\<rparr>"
  by (simp add: addSelfRepliesReducer_def setThreadReducer_def classifyError_def
      blockedThread_def missingThread_def unknownErrorThread_def)

end
